theory Spec2Isabelle
  imports Main
begin

section \<open>Strings\<close>

text \<open>
  The server is TypeScript; its strings are modelled by \<^typ>\<open>string\<close>, read as the
  ASCII fragment of JavaScript strings.  On that fragment \<open>String.prototype.trim\<close>
  strips the white-space and line-terminator characters TAB, LF, VT, FF, CR and SPACE
  from both ends, and \<open>String.prototype.toUpperCase\<close> maps \<open>a\<close>..\<open>z\<close> to
  \<open>A\<close>..\<open>Z\<close> and leaves every other character alone.  Characters beyond ASCII
  (where JavaScript has further white space and the Unicode case tables) are outside
  the model.
\<close>

definition isWhiteSpace :: "char \<Rightarrow> bool" where
  "isWhiteSpace c = (c \<in> set [CHR 0x09, CHR 0x0A, CHR 0x0B, CHR 0x0C, CHR 0x0D, CHR 0x20])"

definition trim :: "string \<Rightarrow> string" where
  "trim s = rev (dropWhile isWhiteSpace (rev (dropWhile isWhiteSpace s)))"

definition upperChar :: "char \<Rightarrow> char" where
  "upperChar c =
     (case map_of (zip ''abcdefghijklmnopqrstuvwxyz'' ''ABCDEFGHIJKLMNOPQRSTUVWXYZ'') c of
        Some C \<Rightarrow> C
      | None \<Rightarrow> c)"

definition toUpperCase :: "string \<Rightarrow> string" where
  "toUpperCase s = map upperChar s"

text \<open>
  \<open>String(x || "")\<close> for a value declared \<open>string\<close> that may be missing at run time:
  \<open>None\<close> stands for \<open>undefined\<close>/\<open>null\<close>; the empty string is falsy as well, and
  both give \<open>""\<close>.
\<close>

definition String_or_empty :: "string option \<Rightarrow> string" where
  "String_or_empty x = (case x of None \<Rightarrow> [] | Some s \<Rightarrow> s)"

text \<open>\<open>function normRoomId(x) { return String(x || "").trim().toUpperCase(); }\<close>\<close>

definition normRoomId :: "string option \<Rightarrow> string" where
  "normRoomId x = toUpperCase (trim (String_or_empty x))"

section \<open>The \<open>Map\<close> container\<close>

text \<open>
  A JavaScript \<open>Map\<close> keeps one entry per key, in insertion order.  It is modelled as
  an association list: \<open>set\<close> overwrites the value of a key already present (the
  entry keeps its place) and appends a new entry otherwise; \<open>delete\<close> removes the
  entry of the key; \<open>values()\<close> lists the values in insertion order.
\<close>

type_synonym ('k, 'v) Map = "('k \<times> 'v) list"

fun Map_get :: "('k, 'v) Map \<Rightarrow> 'k \<Rightarrow> 'v option" where
  "Map_get [] k = None"
| "Map_get ((k', v') # m) k = (if k' = k then Some v' else Map_get m k)"

fun Map_set :: "('k, 'v) Map \<Rightarrow> 'k \<Rightarrow> 'v \<Rightarrow> ('k, 'v) Map" where
  "Map_set [] k v = [(k, v)]"
| "Map_set ((k', v') # m) k v =
     (if k' = k then (k, v) # m else (k', v') # Map_set m k v)"

fun Map_delete :: "('k, 'v) Map \<Rightarrow> 'k \<Rightarrow> ('k, 'v) Map" where
  "Map_delete [] k = []"
| "Map_delete ((k', v') # m) k =
     (if k' = k then m else (k', v') # Map_delete m k)"

definition Map_size :: "('k, 'v) Map \<Rightarrow> nat" where
  "Map_size m = length m"

definition Map_values :: "('k, 'v) Map \<Rightarrow> 'v list" where
  "Map_values m = map snd m"

definition Map_keys :: "('k, 'v) Map \<Rightarrow> 'k list" where
  "Map_keys m = map fst m"


section \<open>Data model\<close>

text \<open>\<open>type VideoUser = { uid: string; name: string; peerId: string }\<close>\<close>

record VideoUser =
  uid :: string
  name :: string
  peerId :: string

text \<open>
  \<open>type VideoJoinAck = { ok: true; peers: VideoUser[] } | { ok: false; error?: "BAD_REQUEST" }\<close>
\<close>

datatype error_code = BAD_REQUEST

datatype VideoJoinAck = Ack_ok "VideoUser list" | Ack_fail "error_code option"

text \<open>
  The event payloads.  A field is \<open>None\<close> when the client left it out; the whole
  payload may be missing too, which the handlers read through \<open>payload?.field\<close>,
  here \<open>field payload sel\<close>.
\<close>

record join_payload =
  join_roomId :: "string option"
  join_uid :: "string option"
  join_name :: "string option"
  join_peerId :: "string option"

record leave_payload =
  leave_roomId :: "string option"
  leave_uid :: "string option"

definition field :: "'p option \<Rightarrow> ('p \<Rightarrow> 'a option) \<Rightarrow> 'a option" where
  "field payload sel = (case payload of None \<Rightarrow> None | Some p \<Rightarrow> sel p)"

text \<open>\<open>const rooms = new Map<string, Map<string, VideoUser>>()\<close>\<close>

type_synonym room = "(string, VideoUser) Map"
type_synonym registry = "(string, room) Map"

text \<open>
  One connection: \<open>socket.data\<close> with its two optional fields \<open>rid\<close> and \<open>uid\<close>
  (both \<open>undefined\<close> on a fresh socket), and \<open>socket.rooms\<close>, the transport's room
  groups the socket was put into by \<open>socket.join\<close> (the private group named by the
  socket's own id, which the transport adds by itself, is left out).
\<close>

record socket_data =
  data_rid :: "string option"
  data_uid :: "string option"

record socket =
  data :: socket_data
  socket_rooms :: "string set"

definition new_socket :: socket where
  "new_socket = \<lparr>data = \<lparr>data_rid = None, data_uid = None\<rparr>, socket_rooms = {}\<rparr>"

text \<open>
  What a handler sends: the value handed to the acknowledgement callback, if the
  client supplied one (\<open>ack?.(...)\<close>), and the calls
  \<open>socket.to(room).emit(event, payload)\<close>, which the transport delivers to every
  socket of the room group except the sender.
\<close>

datatype message = User_joined VideoUser | User_left string

record effects =
  acked :: "VideoJoinAck option"
  emitted :: "(string \<times> message) list"

definition no_effects :: effects where
  "no_effects = \<lparr>acked = None, emitted = []\<rparr>"

definition call_ack :: "bool \<Rightarrow> VideoJoinAck \<Rightarrow> VideoJoinAck option" where
  "call_ack has_ack res = (if has_ack then Some res else None)"

section \<open>The event handlers\<close>

text \<open>
  The handler of \<open>video:join\<close>.  The inner map fetched by \<open>rooms.get(rid)\<close> is the
  object stored in \<open>rooms\<close>, so \<open>map.set\<close> already changes the registry and
  \<open>rooms.set(rid, map)\<close> only adds the key when the room is new; no other reference
  to an inner map outlives a handler, so writing the updated map back under \<open>rid\<close>
  is the same state.
\<close>

definition video_join ::
  "join_payload option \<Rightarrow> bool \<Rightarrow> registry \<Rightarrow> socket \<Rightarrow> registry \<times> socket \<times> effects" where
  "video_join payload has_ack rs sock =
     (let rid = normRoomId (field payload join_roomId);
          uid = trim (String_or_empty (field payload join_uid));
          name = (let t = trim (String_or_empty (field payload join_name))
                  in if t = [] then ''Guest'' else t);
          peerId = trim (String_or_empty (field payload join_peerId))
      in if rid = [] \<or> uid = [] \<or> peerId = []
         then (rs, sock,
               \<lparr>acked = call_ack has_ack (Ack_fail (Some BAD_REQUEST)), emitted = []\<rparr>)
         else
           let m = (case Map_get rs rid of Some m0 \<Rightarrow> m0 | None \<Rightarrow> []);
               m = Map_set m uid \<lparr>uid = uid, name = name, peerId = peerId\<rparr>;
               rs = Map_set rs rid m;
               sock = sock\<lparr>socket_rooms := insert rid (socket_rooms sock)\<rparr>;
               sock = sock\<lparr>data := \<lparr>data_rid = Some rid, data_uid = Some uid\<rparr>\<rparr>;
               peers = Map_values m
           in (rs, sock,
               \<lparr>acked = call_ack has_ack (Ack_ok peers),
                emitted = [(rid, User_joined \<lparr>uid = uid, name = name, peerId = peerId\<rparr>)]\<rparr>))"

text \<open>
  The handler of \<open>video:leave\<close>.  \<open>map.delete(uid)\<close> changes the stored inner map in
  place; when it is left empty the key is deleted, otherwise the registry holds the
  shrunken map under the same key.
\<close>

definition video_leave ::
  "leave_payload option \<Rightarrow> registry \<Rightarrow> socket \<Rightarrow> registry \<times> socket \<times> effects" where
  "video_leave payload rs sock =
     (let rid = normRoomId (field payload leave_roomId);
          uid = trim (String_or_empty (field payload leave_uid))
      in if rid = [] \<or> uid = [] then (rs, sock, no_effects)
         else
           case Map_get rs rid of
             None \<Rightarrow> (rs, sock, no_effects)
           | Some m0 \<Rightarrow>
               let m = Map_delete m0 uid;
                   rs = (if Map_size m = 0 then Map_delete rs rid else Map_set rs rid m)
               in (rs, sock\<lparr>socket_rooms := socket_rooms sock - {rid}\<rparr>,
                   \<lparr>acked = None, emitted = [(rid, User_left uid)]\<rparr>))"

text \<open>
  The handler of \<open>disconnect\<close>; it reads \<open>socket.data\<close>.  \<open>!rid\<close> holds for
  \<open>undefined\<close> and for the empty string.
\<close>

definition disconnect :: "registry \<Rightarrow> socket \<Rightarrow> registry \<times> effects" where
  "disconnect rs sock =
     (case (data_rid (data sock), data_uid (data sock)) of
        (Some r, Some u) \<Rightarrow>
          if r = [] \<or> u = [] then (rs, no_effects)
          else
            (case Map_get rs r of
               None \<Rightarrow> (rs, no_effects)
             | Some m0 \<Rightarrow>
                 let m = Map_delete m0 u;
                     rs = (if Map_size m = 0 then Map_delete rs r else Map_set rs r m)
                 in (rs, \<lparr>acked = None, emitted = [(r, User_left u)]\<rparr>))
      | _ \<Rightarrow> (rs, no_effects))"

section \<open>The server\<close>

text \<open>
  The server state is the registry and the connected sockets, keyed by \<open>socket.id\<close>.
  \<open>io.on("connection", ...)\<close> installs the three handlers on a fresh socket; an
  event of a socket that is not connected does not occur, and is ignored here.  After
  \<open>disconnect\<close> the socket is gone.  \<open>run\<close> handles a sequence of events in order,
  as the single-threaded event loop does.
\<close>

record server =
  rooms :: registry
  sockets :: "(string, socket) Map"

datatype event =
    Connection string
  | Video_join string "join_payload option" bool
  | Video_leave string "leave_payload option"
  | Disconnect string

definition init :: server where
  "init = \<lparr>rooms = [], sockets = []\<rparr>"

fun handle :: "server \<Rightarrow> event \<Rightarrow> server \<times> effects" where
  "handle s (Connection sid) =
     (case Map_get (sockets s) sid of
        Some sock \<Rightarrow> (s, no_effects)
      | None \<Rightarrow> (s\<lparr>sockets := Map_set (sockets s) sid new_socket\<rparr>, no_effects))"
| "handle s (Video_join sid payload has_ack) =
     (case Map_get (sockets s) sid of
        None \<Rightarrow> (s, no_effects)
      | Some sock \<Rightarrow>
          (case video_join payload has_ack (rooms s) sock of
             (rs, sock', fx) \<Rightarrow> (\<lparr>rooms = rs, sockets = Map_set (sockets s) sid sock'\<rparr>, fx)))"
| "handle s (Video_leave sid payload) =
     (case Map_get (sockets s) sid of
        None \<Rightarrow> (s, no_effects)
      | Some sock \<Rightarrow>
          (case video_leave payload (rooms s) sock of
             (rs, sock', fx) \<Rightarrow> (\<lparr>rooms = rs, sockets = Map_set (sockets s) sid sock'\<rparr>, fx)))"
| "handle s (Disconnect sid) =
     (case Map_get (sockets s) sid of
        None \<Rightarrow> (s, no_effects)
      | Some sock \<Rightarrow>
          (case disconnect (rooms s) sock of
             (rs, fx) \<Rightarrow> (\<lparr>rooms = rs, sockets = Map_delete (sockets s) sid\<rparr>, fx)))"

fun run :: "server \<Rightarrow> event list \<Rightarrow> server" where
  "run s [] = s"
| "run s (e # es) = run (fst (handle s e)) es"

section \<open>Invariants of the registry\<close>

definition Map_ok :: "('k, 'v) Map \<Rightarrow> bool" where
  "Map_ok m = distinct (Map_keys m)"

definition room_ok :: "room \<Rightarrow> bool" where
  "room_ok m = (Map_ok m \<and> m \<noteq> [] \<and> list_all (\<lambda>(k, v). k \<noteq> [] \<and> uid v = k) m)"

definition registry_ok :: "registry \<Rightarrow> bool" where
  "registry_ok rs =
     (Map_ok rs \<and> list_all (\<lambda>(k, m). k \<noteq> [] \<and> normRoomId (Some k) = k \<and> room_ok m) rs)"

section \<open>Example inputs\<close>

text \<open>
  Concrete payloads and a concrete run, at which the theorems below are instantiated:
  sockets \<open>A\<close> and \<open>B\<close> connect and \<open>A\<close> joins room \<open>"X1"\<close> as \<open>u1\<close> without a
  name; then \<open>B\<close> joins \<open>"x1 "\<close> as \<open>u2\<close>.
\<close>

definition join_of :: "string \<Rightarrow> string \<Rightarrow> string option \<Rightarrow> string \<Rightarrow> join_payload option" where
  "join_of r u n p =
     Some \<lparr>join_roomId = Some r, join_uid = Some u, join_name = n, join_peerId = Some p\<rparr>"

definition leave_of :: "string \<Rightarrow> string \<Rightarrow> leave_payload option" where
  "leave_of r u = Some \<lparr>leave_roomId = Some r, leave_uid = Some u\<rparr>"

definition first_peer :: "event list" where
  "first_peer =
     [Connection ''A'', Connection ''B'',
      Video_join ''A'' (join_of ''X1'' ''u1'' None ''p1'') True]"

definition two_peers :: "event list" where
  "two_peers = first_peer @ [Video_join ''B'' (join_of ''x1 '' ''u2'' (Some ''Bob'') ''p2'') True]"

text \<open>Socket \<open>B\<close>, which never joined, sends the leave of \<open>u1\<close> instead.\<close>

definition foreign_leave :: "event list" where
  "foreign_leave = first_peer @ [Video_leave ''B'' (leave_of ''x1'' ''u1'')]"

section \<open>Facts about strings and maps\<close>

subsection \<open>Strings\<close>

lemma upperChar_idem: "upperChar (upperChar c) = upperChar c"
  by (simp add: upperChar_def)

lemma isWhiteSpace_upperChar: "isWhiteSpace (upperChar c) = isWhiteSpace c"
  by (simp add: upperChar_def isWhiteSpace_def)

lemma dropWhile_space_upper:
  "dropWhile isWhiteSpace (map upperChar s) = map upperChar (dropWhile isWhiteSpace s)"
  by (induction s) (simp_all add: isWhiteSpace_upperChar)

lemma trim_toUpperCase: "trim (toUpperCase s) = toUpperCase (trim s)"
  by (simp add: trim_def toUpperCase_def dropWhile_space_upper rev_map)

lemma dropWhile_idem: "dropWhile P (dropWhile P s) = dropWhile P s"
  by (induction s) simp_all

lemma trim_front: "dropWhile isWhiteSpace (trim s) = trim s"
proof -
  let ?t = "dropWhile isWhiteSpace s"
  show ?thesis
  proof (cases "trim s")
    case Nil
    then show ?thesis by simp
  next
    case (Cons c cs)
    have "trim s = rev (dropWhile isWhiteSpace (rev ?t))" by (simp add: trim_def)
    then obtain r where r: "?t = trim s @ r"
      by (metis rev_rev_ident rev_append takeWhile_dropWhile_id)
    from Cons r have "?t = c # (cs @ r)" by simp
    then have "\<not> isWhiteSpace c"
      by (metis hd_dropWhile list.sel(1) list.distinct(1))
    with Cons show ?thesis by simp
  qed
qed

lemma trim_back: "dropWhile isWhiteSpace (rev (trim s)) = rev (trim s)"
  by (simp add: trim_def dropWhile_idem)

lemma trim_idem: "trim (trim s) = trim s"
proof -
  have "trim (trim s) = rev (dropWhile isWhiteSpace (rev (trim s)))"
    by (simp add: trim_def[of "trim s"] trim_front)
  then show ?thesis by (simp add: trim_back)
qed

lemma toUpperCase_idem: "toUpperCase (toUpperCase s) = toUpperCase s"
  by (simp add: toUpperCase_def upperChar_idem)

lemma normRoomId_idem: "normRoomId (Some (normRoomId x)) = normRoomId x"
  by (simp add: normRoomId_def String_or_empty_def trim_toUpperCase trim_idem toUpperCase_idem)

subsection \<open>Map\<close>

lemma Map_get_set: "Map_get (Map_set m k v) k' = (if k' = k then Some v else Map_get m k')"
  by (induction m) auto

lemma Map_get_None_iff: "Map_get m k = None \<longleftrightarrow> k \<notin> set (Map_keys m)"
  by (induction m) (auto simp: Map_keys_def split: if_splits)

lemma Map_get_Some_mem: "Map_get m k = Some v \<Longrightarrow> (k, v) \<in> set m"
  by (induction m) (auto split: if_splits)


lemma Map_keys_set:
  "Map_keys (Map_set m k v) = (if k \<in> set (Map_keys m) then Map_keys m else Map_keys m @ [k])"
  by (induction m) (auto simp: Map_keys_def split: if_splits)

lemma Map_ok_set: "Map_ok m \<Longrightarrow> Map_ok (Map_set m k v)"
  by (simp add: Map_ok_def Map_keys_set)

lemma set_Map_set: "set (Map_set m k v) \<subseteq> insert (k, v) (set m)"
  by (induction m) (auto split: if_splits)

lemma Map_set_nonempty: "Map_set m k v \<noteq> []"
  by (cases m) (auto split: if_splits)

lemma set_Map_delete: "set (Map_delete m k) \<subseteq> set m"
  by (induction m) (auto split: if_splits)

lemma Map_get_delete_other: "k' \<noteq> k \<Longrightarrow> Map_get (Map_delete m k) k' = Map_get m k'"
  by (induction m) auto

lemma Map_get_delete_same: "Map_ok m \<Longrightarrow> Map_get (Map_delete m k) k = None"
proof (induction m)
  case Nil
  then show ?case by simp
next
  case (Cons a m)
  obtain k' v' where a: "a = (k', v')" by (cases a)
  from Cons.prems have ok: "Map_ok m" and fresh: "k' \<notin> set (Map_keys m)"
    by (simp_all add: a Map_ok_def Map_keys_def)
  show ?case
  proof (cases "k' = k")
    case True
    with fresh show ?thesis by (simp add: a Map_get_None_iff)
  next
    case False
    with Cons.IH[OF ok] show ?thesis by (simp add: a)
  qed
qed

lemma Map_get_delete:
  "Map_ok m \<Longrightarrow> Map_get (Map_delete m k) k' = (if k' = k then None else Map_get m k')"
  by (simp add: Map_get_delete_other Map_get_delete_same)

lemma Map_keys_delete:
  "Map_ok m \<Longrightarrow> set (Map_keys (Map_delete m k)) = set (Map_keys m) - {k}"
proof -
  assume ok: "Map_ok m"
  have "x \<in> set (Map_keys (Map_delete m k)) \<longleftrightarrow> x \<in> set (Map_keys m) - {k}" for x
    using Map_get_delete[OF ok, of k x] Map_get_None_iff[of "Map_delete m k" x]
      Map_get_None_iff[of m x]
    by (auto split: if_splits)
  then show ?thesis by blast
qed

lemma Map_ok_delete: "Map_ok m \<Longrightarrow> Map_ok (Map_delete m k)"
proof (induction m)
  case Nil
  then show ?case by simp
next
  case (Cons a m)
  obtain k' v' where a: "a = (k', v')" by (cases a)
  from Cons.prems have ok: "Map_ok m" and fresh: "k' \<notin> set (Map_keys m)"
    by (simp_all add: a Map_ok_def Map_keys_def)
  have "k' \<notin> set (Map_keys (Map_delete m k))"
    using fresh by (simp add: Map_keys_delete[OF ok])
  with Cons.IH[OF ok] ok show ?case
    by (simp add: a Map_ok_def Map_keys_def)
qed

lemma Map_delete_absent: "Map_get m k = None \<Longrightarrow> Map_delete m k = m"
  by (induction m) (auto split: if_splits)

lemma Map_set_same: "Map_get m k = Some v \<Longrightarrow> Map_set m k v = m"
  by (induction m) (auto split: if_splits)

section \<open>The registry invariant is kept by every handler\<close>

lemma registry_okD:
  assumes "registry_ok rs" and "Map_get rs k = Some m"
  shows "k \<noteq> []" and "normRoomId (Some k) = k" and "room_ok m"
  using assms Map_get_Some_mem[of rs k m]
  by (auto simp: registry_ok_def list_all_iff)

lemma registry_ok_set:
  assumes "registry_ok rs" and "k \<noteq> []" and "normRoomId (Some k) = k" and "room_ok m"
  shows "registry_ok (Map_set rs k m)"
  using assms set_Map_set[of rs k m]
  by (auto simp: registry_ok_def list_all_iff Map_ok_set)

lemma registry_ok_delete: "registry_ok rs \<Longrightarrow> registry_ok (Map_delete rs k)"
  using set_Map_delete[of rs k]
  by (auto simp: registry_ok_def list_all_iff Map_ok_delete)

lemma room_ok_set:
  assumes "m = [] \<or> room_ok m" and "u \<noteq> []"
  shows "room_ok (Map_set m u \<lparr>uid = u, name = n, peerId = p\<rparr>)"
proof -
  let ?v = "\<lparr>uid = u, name = n, peerId = p\<rparr>"
  from assms have ok: "Map_ok m" and keys: "\<forall>(k, v) \<in> set m. k \<noteq> [] \<and> uid v = k"
    by (auto simp: room_ok_def list_all_iff Map_ok_def Map_keys_def)
  have "\<forall>(k, v) \<in> set (Map_set m u ?v). k \<noteq> [] \<and> uid v = k"
    using keys set_Map_set[of m u ?v] \<open>u \<noteq> []\<close> by auto
  with Map_ok_set[OF ok, of u ?v] show ?thesis
    by (simp add: room_ok_def list_all_iff Map_set_nonempty)
qed

lemma room_ok_delete:
  assumes "room_ok m" and "Map_delete m u \<noteq> []"
  shows "room_ok (Map_delete m u)"
  using assms set_Map_delete[of m u]
  by (auto simp: room_ok_def list_all_iff Map_ok_delete)

text \<open>The removal both \<open>video:leave\<close> and \<open>disconnect\<close> perform on a room that exists.\<close>

lemma registry_ok_remove:
  assumes ok: "registry_ok rs" and get: "Map_get rs r = Some m0"
  shows "registry_ok (if Map_size (Map_delete m0 u) = 0 then Map_delete rs r
                      else Map_set rs r (Map_delete m0 u))"
proof (cases "Map_delete m0 u = []")
  case True
  then show ?thesis by (simp add: Map_size_def registry_ok_delete[OF ok])
next
  case False
  have "room_ok (Map_delete m0 u)"
    using registry_okD(3)[OF ok get] False by (rule room_ok_delete)
  with False show ?thesis
    by (simp add: Map_size_def registry_ok_set[OF ok registry_okD(1,2)[OF ok get]])
qed

lemma video_join_registry_ok:
  assumes "registry_ok rs"
  shows "registry_ok (fst (video_join payload has_ack rs sock))"
proof -
  let ?rid = "normRoomId (field payload join_roomId)"
  have room: "(case Map_get rs ?rid of Some m0 \<Rightarrow> m0 | None \<Rightarrow> []) = [] \<or>
              room_ok (case Map_get rs ?rid of Some m0 \<Rightarrow> m0 | None \<Rightarrow> [])"
    using registry_okD(3)[OF assms] by (auto split: option.splits)
  show ?thesis
    using assms
    by (simp add: video_join_def Let_def registry_ok_set normRoomId_idem room_ok_set[OF room])
qed

lemma video_leave_registry_ok:
  assumes "registry_ok rs"
  shows "registry_ok (fst (video_leave payload rs sock))"
  using assms
  by (auto simp: video_leave_def Let_def registry_ok_remove simp del: Map_delete.simps
      split: option.splits)

lemma disconnect_registry_ok:
  assumes "registry_ok rs"
  shows "registry_ok (fst (disconnect rs sock))"
  using assms
  by (auto simp: disconnect_def Let_def registry_ok_remove split: option.splits)

lemma handle_registry_ok:
  assumes "registry_ok (rooms s)"
  shows "registry_ok (rooms (fst (handle s e)))"
proof (cases e)
  case (Connection sid)
  with assms show ?thesis by (simp split: option.splits)
next
  case (Video_join sid payload has_ack)
  show ?thesis
  proof (cases "Map_get (sockets s) sid")
    case None
    with assms Video_join show ?thesis by simp
  next
    case (Some sock)
    with Video_join video_join_registry_ok[OF assms, of payload has_ack sock] show ?thesis
      by (auto split: prod.splits)
  qed
next
  case (Video_leave sid payload)
  show ?thesis
  proof (cases "Map_get (sockets s) sid")
    case None
    with assms Video_leave show ?thesis by simp
  next
    case (Some sock)
    with Video_leave video_leave_registry_ok[OF assms, of payload sock] show ?thesis
      by (auto split: prod.splits)
  qed
next
  case (Disconnect sid)
  show ?thesis
  proof (cases "Map_get (sockets s) sid")
    case None
    with assms Disconnect show ?thesis by simp
  next
    case (Some sock)
    with Disconnect disconnect_registry_ok[OF assms, of sock] show ?thesis
      by (auto split: prod.splits)
  qed
qed

lemma run_registry_ok: "registry_ok (rooms s) \<Longrightarrow> registry_ok (rooms (run s es))"
  by (induction es arbitrary: s) (simp_all add: handle_registry_ok)

lemma init_registry_ok: "registry_ok (rooms init)"
  by (simp add: init_def registry_ok_def Map_ok_def Map_keys_def)

lemma reachable_registry_ok: "registry_ok (rooms (run init es))"
  by (rule run_registry_ok[OF init_registry_ok])

section \<open>Evaluating concrete runs\<close>

lemmas eval_defs = normRoomId_def String_or_empty_def trim_def toUpperCase_def
        isWhiteSpace_def upperChar_def field_def

lemmas run_defs = init_def video_join_def video_leave_def disconnect_def call_ack_def
  no_effects_def new_socket_def Map_size_def Map_values_def Map_keys_def
  join_of_def leave_of_def Let_def


lemma run_two_peers:
  "run init two_peers =
     \<lparr>rooms = [(''X1'', [(''u1'', \<lparr>uid = ''u1'', name = ''Guest'', peerId = ''p1''\<rparr>),
                          (''u2'', \<lparr>uid = ''u2'', name = ''Bob'', peerId = ''p2''\<rparr>)])],
      sockets = [(''A'', \<lparr>data = \<lparr>data_rid = Some ''X1'', data_uid = Some ''u1''\<rparr>,
                       socket_rooms = {''X1''}\<rparr>),
                 (''B'', \<lparr>data = \<lparr>data_rid = Some ''X1'', data_uid = Some ''u2''\<rparr>,
                       socket_rooms = {''X1''}\<rparr>)]\<rparr>"
  by (simp add: two_peers_def first_peer_def run_defs eval_defs)

lemma run_append: "run s (es @ es') = run (run s es) es'"
  by (induction es arbitrary: s) simp_all

lemma run_two_peers_disconnect:
  "run init (two_peers @ [Disconnect ''B'']) =
     \<lparr>rooms = [(''X1'', [(''u1'', \<lparr>uid = ''u1'', name = ''Guest'', peerId = ''p1''\<rparr>)])],
      sockets = [(''A'', \<lparr>data = \<lparr>data_rid = Some ''X1'', data_uid = Some ''u1''\<rparr>,
                       socket_rooms = {''X1''}\<rparr>)]\<rparr>"
  unfolding run_append run_two_peers by (simp add: run_defs)


lemma run_first_peer:
  "run init first_peer =
     \<lparr>rooms = [(''X1'', [(''u1'', \<lparr>uid = ''u1'', name = ''Guest'', peerId = ''p1''\<rparr>)])],
      sockets = [(''A'', \<lparr>data = \<lparr>data_rid = Some ''X1'', data_uid = Some ''u1''\<rparr>,
                          socket_rooms = {''X1''}\<rparr>),
                 (''B'', \<lparr>data = \<lparr>data_rid = None, data_uid = None\<rparr>, socket_rooms = {}\<rparr>)]\<rparr>"
  by (simp add: first_peer_def run_defs eval_defs)

lemma run_foreign_leave:
  "run init foreign_leave =
     \<lparr>rooms = [],
      sockets = [(''A'', \<lparr>data = \<lparr>data_rid = Some ''X1'', data_uid = Some ''u1''\<rparr>,
                          socket_rooms = {''X1''}\<rparr>),
                 (''B'', \<lparr>data = \<lparr>data_rid = None, data_uid = None\<rparr>, socket_rooms = {}\<rparr>)]\<rparr>"
  by (simp add: foreign_leave_def first_peer_def run_defs eval_defs)

lemma run_two_peers_leave:
  "run init (two_peers @ [Video_leave ''A'' (leave_of ''X1'' ''u1'')]) =
     \<lparr>rooms = [(''X1'', [(''u2'', \<lparr>uid = ''u2'', name = ''Bob'', peerId = ''p2''\<rparr>)])],
      sockets = [(''A'', \<lparr>data = \<lparr>data_rid = Some ''X1'', data_uid = Some ''u1''\<rparr>,
                          socket_rooms = {}\<rparr>),
                 (''B'', \<lparr>data = \<lparr>data_rid = Some ''X1'', data_uid = Some ''u2''\<rparr>,
                          socket_rooms = {''X1''}\<rparr>)]\<rparr>"
  unfolding run_append run_two_peers by (simp add: run_defs eval_defs)

section \<open>Room id normalisation\<close>









section \<open>The registry holds no empty room\<close>

lemma singleton_keys: "Map_keys m = [u] \<Longrightarrow> Map_delete m u = []"
  by (cases m) (auto simp: Map_keys_def)

lemma remove_last_member:
  assumes ok: "registry_ok rs" and get: "Map_get rs r = Some m" and one: "Map_keys m = [u]"
  shows "Map_get (if Map_size (Map_delete m u) = 0 then Map_delete rs r
                  else Map_set rs r (Map_delete m u)) r = None"
proof -
  from ok have "Map_ok rs" by (simp add: registry_ok_def)
  then show ?thesis
    by (simp add: singleton_keys[OF one] Map_size_def Map_get_delete_same)
qed

lemma member_key_nonempty:
  assumes ok: "registry_ok rs" and get: "Map_get rs r = Some m" and mem: "u \<in> set (Map_keys m)"
  shows "u \<noteq> []"
  using registry_okD(3)[OF ok get] mem
  by (auto simp: room_ok_def list_all_iff Map_keys_def)

text \<open>
  Claim C1.  In every state the server reaches from its start by any sequence of
  connection, join, leave and disconnect events, a room id is a key of the registry
  exactly when the map stored under it is non-empty.  In particular, when a room has a
  single member and that member is removed, by an explicit leave or by the disconnect of
  a socket whose session names it, the room id is no longer a key afterwards.
\<close>

theorem registry_key_iff_room_nonempty:
  assumes "s = run init es"
  shows "((Map_get (rooms s) rid \<noteq> None)
            = (\<exists>m. Map_get (rooms s) rid = Some m \<and> Map_size m \<noteq> 0))
       \<and> (Map_get (sockets s) sid = Some sock \<and> Map_get (rooms s) rid = Some m1
            \<and> Map_keys m1 = [u]
            \<and> normRoomId (field p leave_roomId) = rid
            \<and> trim (String_or_empty (field p leave_uid)) = u
          \<longrightarrow> Map_get (rooms (fst (handle s (Video_leave sid p)))) rid = None)
       \<and> (Map_get (sockets s) sid = Some sock \<and> Map_get (rooms s) rid = Some m1
            \<and> Map_keys m1 = [u]
            \<and> data sock = \<lparr>data_rid = Some rid, data_uid = Some u\<rparr>
          \<longrightarrow> Map_get (rooms (fst (handle s (Disconnect sid)))) rid = None)"
proof -
  have ok: "registry_ok (rooms s)"
    unfolding assms by (rule reachable_registry_ok)
  have inv: "(Map_get (rooms s) rid \<noteq> None)
      = (\<exists>m. Map_get (rooms s) rid = Some m \<and> Map_size m \<noteq> 0)"
  proof (cases "Map_get (rooms s) rid")
    case None
    then show ?thesis by simp
  next
    case (Some m)
    with registry_okD(3)[OF ok Some] show ?thesis
      by (simp add: room_ok_def Map_size_def)
  qed
  have leave: "Map_get (rooms (fst (handle s (Video_leave sid p)))) rid = None"
    if sock: "Map_get (sockets s) sid = Some sock" and get: "Map_get (rooms s) rid = Some m1"
      and one: "Map_keys m1 = [u]" and r: "normRoomId (field p leave_roomId) = rid"
      and u: "trim (String_or_empty (field p leave_uid)) = u"
  proof -
    have "rid \<noteq> []" by (rule registry_okD(1)[OF ok get])
    moreover have "u \<noteq> []"
      using member_key_nonempty[OF ok get, of u] one by simp
    ultimately show ?thesis
      using sock get r u remove_last_member[OF ok get one]
      by (simp add: video_leave_def Let_def)
  qed
  have disc: "Map_get (rooms (fst (handle s (Disconnect sid)))) rid = None"
    if sock: "Map_get (sockets s) sid = Some sock" and get: "Map_get (rooms s) rid = Some m1"
      and one: "Map_keys m1 = [u]"
      and d: "data sock = \<lparr>data_rid = Some rid, data_uid = Some u\<rparr>"
  proof -
    have "rid \<noteq> []" by (rule registry_okD(1)[OF ok get])
    moreover have "u \<noteq> []"
      using member_key_nonempty[OF ok get, of u] one by simp
    ultimately show ?thesis
      using sock get d remove_last_member[OF ok get one]
      by (simp add: disconnect_def Let_def)
  qed
  show ?thesis
    by (intro conjI impI; (elim conjE)?; (rule inv | rule leave | rule disc); assumption?)
qed

theorem registry_key_iff_room_nonempty_witness:
  "Map_get (rooms (run init (two_peers @ [Disconnect ''B'']))) ''X1''
     = Some [(''u1'', \<lparr>uid = ''u1'', name = ''Guest'', peerId = ''p1''\<rparr>)]
   \<and> Map_get (sockets (run init (two_peers @ [Disconnect ''B'']))) ''A''
     = Some \<lparr>data = \<lparr>data_rid = Some ''X1'', data_uid = Some ''u1''\<rparr>,
             socket_rooms = {''X1''}\<rparr>
   \<and> normRoomId (field (leave_of '' x1'' ''u1 '') leave_roomId) = ''X1''
   \<and> trim (String_or_empty (field (leave_of '' x1'' ''u1 '') leave_uid)) = ''u1''
   \<and> Map_get (rooms (fst (handle (run init (two_peers @ [Disconnect ''B'']))
        (Video_leave ''A'' (leave_of '' x1'' ''u1 ''))))) ''X1'' = None
   \<and> Map_get (rooms (fst (handle (run init (two_peers @ [Disconnect ''B'']))
        (Disconnect ''A'')))) ''X1'' = None"
  using registry_key_iff_room_nonempty
    [of "run init (two_peers @ [Disconnect ''B''])" "two_peers @ [Disconnect ''B'']" "''X1''" "''A''"
        "\<lparr>data = \<lparr>data_rid = Some ''X1'', data_uid = Some ''u1''\<rparr>, socket_rooms = {''X1''}\<rparr>"
        "[(''u1'', \<lparr>uid = ''u1'', name = ''Guest'', peerId = ''p1''\<rparr>)]" "''u1''"
        "leave_of '' x1'' ''u1 ''"]
  unfolding run_two_peers_disconnect by (simp add: run_defs eval_defs)

section \<open>Rejected joins\<close>

lemma server_eqI: "rooms s = rs \<Longrightarrow> sockets s = ss \<Longrightarrow> \<lparr>rooms = rs, sockets = ss\<rparr> = s"
  by (cases s) simp

text \<open>
  Claim C2.  When the normalised room id, the trimmed uid or the trimmed peer id of a
  join payload is empty, the handler hands \<open>{ ok: false, error: "BAD_REQUEST" }\<close> to
  the acknowledgement callback (when the client gave one), emits nothing, and leaves
  the registry and the socket as they were; the server state is unchanged, so no room
  is created.
\<close>

theorem video_join_bad_request:
  assumes "normRoomId (field payload join_roomId) = []
           \<or> trim (String_or_empty (field payload join_uid)) = []
           \<or> trim (String_or_empty (field payload join_peerId)) = []"
  shows "video_join payload has_ack rs sock =
           (rs, sock,
            \<lparr>acked = (if has_ack then Some (Ack_fail (Some BAD_REQUEST)) else None),
             emitted = []\<rparr>)
         \<and> fst (handle s (Video_join sid payload has_ack)) = s"
proof -
  have h: "video_join payload has_ack rs' sock' =
           (rs', sock',
            \<lparr>acked = (if has_ack then Some (Ack_fail (Some BAD_REQUEST)) else None),
             emitted = []\<rparr>)" for rs' sock'
    using assms by (auto simp: video_join_def call_ack_def)
  have "fst (handle s (Video_join sid payload has_ack)) = s"
  proof (cases "Map_get (sockets s) sid")
    case None
    then show ?thesis by simp
  next
    case (Some sock')
    then show ?thesis
      by (simp add: h Map_set_same server_eqI)
  qed
  with h show ?thesis by simp
qed

theorem video_join_bad_request_witness:
  "trim (String_or_empty (field (Some \<lparr>join_roomId = Some ''X1'', join_uid = Some ''  '',
        join_name = Some ''Ann'', join_peerId = Some ''p1''\<rparr>) join_uid)) = []
   \<and> video_join (Some \<lparr>join_roomId = Some ''X1'', join_uid = Some ''  '',
        join_name = Some ''Ann'', join_peerId = Some ''p1''\<rparr>) True [] new_socket
     = ([], new_socket, \<lparr>acked = Some (Ack_fail (Some BAD_REQUEST)), emitted = []\<rparr>)
   \<and> fst (handle (run init [Connection ''A''])
        (Video_join ''A'' (Some \<lparr>join_roomId = Some ''X1'', join_uid = Some ''  '',
           join_name = Some ''Ann'', join_peerId = Some ''p1''\<rparr>) True))
     = run init [Connection ''A'']
   \<and> rooms (run init [Connection ''A'']) = []"
  using video_join_bad_request
    [of "Some \<lparr>join_roomId = Some ''X1'', join_uid = Some ''  '',
        join_name = Some ''Ann'', join_peerId = Some ''p1''\<rparr>" True "[]" new_socket
        "run init [Connection ''A'']" "''A''"]
  by (simp add: eval_defs init_def)

section \<open>Disconnect without a session\<close>

text \<open>
  Claim C7.  When the socket's data holds no room id or no uid, as on a socket that
  never joined successfully, the disconnect handler returns at once: the registry is
  unchanged and nothing is emitted.
\<close>

theorem disconnect_empty_session:
  assumes "data_rid (data sock) = None \<or> data_uid (data sock) = None"
  shows "disconnect rs sock = (rs, \<lparr>acked = None, emitted = []\<rparr>)
         \<and> (Map_get (sockets s) sid = Some sock \<longrightarrow>
              rooms (fst (handle s (Disconnect sid))) = rooms s
              \<and> emitted (snd (handle s (Disconnect sid))) = [])"
  using assms
  by (auto simp: disconnect_def no_effects_def split: option.splits)

theorem disconnect_empty_session_witness:
  "data_rid (data new_socket) = None
   \<and> Map_get (sockets (run init first_peer)) ''B'' = Some new_socket
   \<and> disconnect (rooms (run init first_peer)) new_socket
     = ([(''X1'', [(''u1'', \<lparr>uid = ''u1'', name = ''Guest'', peerId = ''p1''\<rparr>)])],
        \<lparr>acked = None, emitted = []\<rparr>)
   \<and> rooms (fst (handle (run init first_peer) (Disconnect ''B'')))
     = [(''X1'', [(''u1'', \<lparr>uid = ''u1'', name = ''Guest'', peerId = ''p1''\<rparr>)])]
   \<and> emitted (snd (handle (run init first_peer) (Disconnect ''B''))) = []"
  using disconnect_empty_session [of new_socket "rooms (run init first_peer)" "run init first_peer" "''B''"]
  unfolding run_first_peer by (simp add: new_socket_def)

section \<open>Keys of the registry and of the rooms\<close>



section \<open>Accepted joins\<close>

lemma filter_uid_absent:
  assumes "\<forall>(k, v) \<in> set m. uid v = k" and "u \<notin> fst ` set m"
  shows "filter (\<lambda>x. uid x = u) (map snd m) = []"
  using assms by (induction m) auto

lemma filter_uid_member:
  assumes "distinct (map fst m)" and "\<forall>(k, v) \<in> set m. uid v = k" and "Map_get m u = Some v"
  shows "filter (\<lambda>x. uid x = u) (map snd m) = [v]"
  using assms
proof (induction m)
  case Nil
  then show ?case by simp
next
  case (Cons a m)
  obtain k' v' where a: "a = (k', v')" by (cases a)
  from Cons.prems(2) have here: "uid v' = k'" and rest: "\<forall>(k, v) \<in> set m. uid v = k"
    by (simp_all add: a)
  show ?case
  proof (cases "k' = u")
    case True
    with Cons.prems(1) have "u \<notin> fst ` set m" by (simp add: a)
    with rest have "filter (\<lambda>x. uid x = u) (map snd m) = []" by (rule filter_uid_absent)
    with True here Cons.prems(3) show ?thesis by (simp add: a)
  next
    case False
    with Cons.prems have "filter (\<lambda>x. uid x = u) (map snd m) = [v]"
      using Cons.IH rest by (simp add: a)
    with False here show ?thesis by (simp add: a)
  qed
qed

lemma room_ok_peers:
  assumes "room_ok m" and "Map_get m u = Some v"
  shows "filter (\<lambda>x. uid x = u) (Map_values m) = [v]"
proof -
  from assms(1) have "distinct (map fst m)" and "\<forall>(k, v) \<in> set m. uid v = k"
    by (auto simp: room_ok_def Map_ok_def Map_keys_def list_all_iff)
  then show ?thesis
    unfolding Map_values_def using assms(2) by (rule filter_uid_member)
qed

text \<open>What a join that passes validation does, in one equation.\<close>

lemma video_join_valid:
  assumes "normRoomId (field payload join_roomId) = r" and "r \<noteq> []"
    and "trim (String_or_empty (field payload join_uid)) = u" and "u \<noteq> []"
    and "trim (String_or_empty (field payload join_peerId)) = p" and "p \<noteq> []"
    and "(if trim (String_or_empty (field payload join_name)) = [] then ''Guest''
          else trim (String_or_empty (field payload join_name))) = n"
    and "Map_set (case Map_get rs r of Some m0 \<Rightarrow> m0 | None \<Rightarrow> []) u
           \<lparr>uid = u, name = n, peerId = p\<rparr> = m'"
  shows "video_join payload has_ack rs sock =
           (Map_set rs r m',
            \<lparr>data = \<lparr>data_rid = Some r, data_uid = Some u\<rparr>,
             socket_rooms = insert r (socket_rooms sock)\<rparr>,
            \<lparr>acked = (if has_ack then Some (Ack_ok (Map_values m')) else None),
             emitted = [(r, User_joined \<lparr>uid = u, name = n, peerId = p\<rparr>)]\<rparr>)"
  using assms by (cases sock) (auto simp: video_join_def Let_def call_ack_def)

text \<open>
  Claim C3.  In every reachable state, a join whose normalised room id, trimmed uid and
  trimmed peer id are all non-empty hands \<open>{ ok: true, peers }\<close> to the acknowledgement
  callback (when the client gave one), and \<open>peers\<close> has exactly one entry with the
  joining uid: the record of the trimmed uid, the trimmed peer id and the trimmed name,
  or \<open>"Guest"\<close> when the name is missing or blank.
\<close>

theorem video_join_ack_lists_joiner_once:
  assumes "s = run init es"
    and "normRoomId (field payload join_roomId) = r" and "r \<noteq> []"
    and "trim (String_or_empty (field payload join_uid)) = u" and "u \<noteq> []"
    and "trim (String_or_empty (field payload join_peerId)) = p" and "p \<noteq> []"
    and "(if trim (String_or_empty (field payload join_name)) = [] then ''Guest''
          else trim (String_or_empty (field payload join_name))) = n"
  shows "\<exists>peers.
           acked (snd (snd (video_join payload has_ack (rooms s) sock)))
             = (if has_ack then Some (Ack_ok peers) else None)
         \<and> filter (\<lambda>x. uid x = u) peers = [\<lparr>uid = u, name = n, peerId = p\<rparr>]"
proof -
  let ?v = "\<lparr>uid = u, name = n, peerId = p\<rparr>"
  let ?m = "case Map_get (rooms s) r of Some m0 \<Rightarrow> m0 | None \<Rightarrow> []"
  have ok: "registry_ok (rooms s)"
    unfolding assms(1) by (rule reachable_registry_ok)
  have "?m = [] \<or> room_ok ?m"
    using registry_okD(3)[OF ok] by (auto split: option.splits)
  then have "room_ok (Map_set ?m u ?v)"
    using \<open>u \<noteq> []\<close> by (rule room_ok_set)
  then have "filter (\<lambda>x. uid x = u) (Map_values (Map_set ?m u ?v)) = [?v]"
    by (rule room_ok_peers) (simp add: Map_get_set)
  then show ?thesis
    by (intro exI[of _ "Map_values (Map_set ?m u ?v)"])
      (simp add: video_join_valid[OF assms(2-8) refl])
qed

theorem video_join_ack_lists_joiner_once_witness:
  "normRoomId (field (join_of '' x1 '' '' u1'' (Some ''  '') ''p9 '') join_roomId) = ''X1''
   \<and> trim (String_or_empty (field (join_of '' x1 '' '' u1'' (Some ''  '') ''p9 '') join_uid)) = ''u1''
   \<and> trim (String_or_empty (field (join_of '' x1 '' '' u1'' (Some ''  '') ''p9 '') join_peerId)) = ''p9''
   \<and> trim (String_or_empty (field (join_of '' x1 '' '' u1'' (Some ''  '') ''p9 '') join_name)) = []
   \<and> acked (snd (snd (video_join (join_of '' x1 '' '' u1'' (Some ''  '') ''p9 '') True
        (rooms (run init two_peers)) new_socket)))
     = Some (Ack_ok [\<lparr>uid = ''u1'', name = ''Guest'', peerId = ''p9''\<rparr>,
                     \<lparr>uid = ''u2'', name = ''Bob'', peerId = ''p2''\<rparr>])
   \<and> filter (\<lambda>x. uid x = ''u1'')
        [\<lparr>uid = ''u1'', name = ''Guest'', peerId = ''p9''\<rparr>,
         \<lparr>uid = ''u2'', name = ''Bob'', peerId = ''p2''\<rparr>]
     = [\<lparr>uid = ''u1'', name = ''Guest'', peerId = ''p9''\<rparr>]"
  using video_join_ack_lists_joiner_once
    [of "run init two_peers" two_peers "join_of '' x1 '' '' u1'' (Some ''  '') ''p9 ''"
        "''X1''" "''u1''" "''p9''" "''Guest''" True new_socket]
  unfolding run_two_peers by (simp add: run_defs eval_defs)

text \<open>
  Claim C4.  A valid join for a uid that is already a member of the room is an upsert:
  the record stored under the uid becomes the new one, the room keeps its keys (hence
  its size), every other member keeps its record, the registry keeps its keys, and the
  acknowledgement is the positive one.
\<close>

theorem repeat_join_replaces_record:
  assumes "normRoomId (field payload join_roomId) = r" and "r \<noteq> []"
    and "trim (String_or_empty (field payload join_uid)) = u" and "u \<noteq> []"
    and "trim (String_or_empty (field payload join_peerId)) = p" and "p \<noteq> []"
    and "(if trim (String_or_empty (field payload join_name)) = [] then ''Guest''
          else trim (String_or_empty (field payload join_name))) = n"
    and "Map_get rs r = Some m" and "u \<in> set (Map_keys m)"
  shows "\<exists>m'. Map_get (fst (video_join payload has_ack rs sock)) r = Some m'
           \<and> Map_get m' u = Some \<lparr>uid = u, name = n, peerId = p\<rparr>
           \<and> Map_keys m' = Map_keys m
           \<and> Map_size m' = Map_size m
           \<and> (\<forall>u'. u' \<noteq> u \<longrightarrow> Map_get m' u' = Map_get m u')
           \<and> Map_keys (fst (video_join payload has_ack rs sock)) = Map_keys rs
           \<and> acked (snd (snd (video_join payload has_ack rs sock)))
               = (if has_ack then Some (Ack_ok (Map_values m')) else None)"
proof -
  let ?v = "\<lparr>uid = u, name = n, peerId = p\<rparr>"
  have keys: "Map_keys (Map_set m u ?v) = Map_keys m"
    using assms(9) by (simp add: Map_keys_set)
  then have size: "Map_size (Map_set m u ?v) = Map_size m"
    by (metis Map_keys_def Map_size_def length_map)
  have "r \<in> set (Map_keys rs)"
    using assms(8) Map_get_None_iff[of rs r] by auto
  then have outer: "Map_keys (Map_set rs r (Map_set m u ?v)) = Map_keys rs"
    by (simp add: Map_keys_set)
  have run: "video_join payload has_ack rs sock =
           (Map_set rs r (Map_set m u ?v),
            \<lparr>data = \<lparr>data_rid = Some r, data_uid = Some u\<rparr>,
             socket_rooms = insert r (socket_rooms sock)\<rparr>,
            \<lparr>acked = (if has_ack then Some (Ack_ok (Map_values (Map_set m u ?v))) else None),
             emitted = [(r, User_joined ?v)]\<rparr>)"
    by (rule video_join_valid[OF assms(1-7)]) (simp add: assms(8))
  show ?thesis
    unfolding run using keys size outer by (simp add: Map_get_set)
qed

theorem repeat_join_replaces_record_witness:
  "Map_get (rooms (run init two_peers)) ''X1''
     = Some [(''u1'', \<lparr>uid = ''u1'', name = ''Guest'', peerId = ''p1''\<rparr>),
             (''u2'', \<lparr>uid = ''u2'', name = ''Bob'', peerId = ''p2''\<rparr>)]
   \<and> ''u1'' \<in> set (Map_keys [(''u1'', \<lparr>uid = ''u1'', name = ''Guest'', peerId = ''p1''\<rparr>),
                               (''u2'', \<lparr>uid = ''u2'', name = ''Bob'', peerId = ''p2''\<rparr>)])
   \<and> fst (video_join (join_of ''x1'' ''u1'' (Some ''Ann'') ''p9'') True
        (rooms (run init two_peers)) new_socket)
     = [(''X1'', [(''u1'', \<lparr>uid = ''u1'', name = ''Ann'', peerId = ''p9''\<rparr>),
                  (''u2'', \<lparr>uid = ''u2'', name = ''Bob'', peerId = ''p2''\<rparr>)])]
   \<and> acked (snd (snd (video_join (join_of ''x1'' ''u1'' (Some ''Ann'') ''p9'') True
        (rooms (run init two_peers)) new_socket)))
     = Some (Ack_ok [\<lparr>uid = ''u1'', name = ''Ann'', peerId = ''p9''\<rparr>,
                     \<lparr>uid = ''u2'', name = ''Bob'', peerId = ''p2''\<rparr>])"
  using repeat_join_replaces_record
    [of "join_of ''x1'' ''u1'' (Some ''Ann'') ''p9''" "''X1''" "''u1''" "''p9''" "''Ann''"
        "rooms (run init two_peers)"
        "[(''u1'', \<lparr>uid = ''u1'', name = ''Guest'', peerId = ''p1''\<rparr>),
          (''u2'', \<lparr>uid = ''u2'', name = ''Bob'', peerId = ''p2''\<rparr>)]" True new_socket]
  unfolding run_two_peers by (simp add: run_defs eval_defs)

text \<open>
  Claim C9.  When a socket whose data names \<open>(r1, u1)\<close> joins again as \<open>(r2, u2)\<close>, its
  data is overwritten with \<open>(r2, u2)\<close>, it is added to the room group \<open>r2\<close> and leaves
  no group, only a \<open>user-joined\<close> is emitted, and nothing is removed: a different room
  \<open>r1\<close> is untouched in the registry, and within the same room the record of \<open>u1\<close>
  stays as it was.
\<close>

theorem second_join_keeps_first_room:
  assumes "normRoomId (field payload join_roomId) = r2" and "r2 \<noteq> []"
    and "trim (String_or_empty (field payload join_uid)) = u2" and "u2 \<noteq> []"
    and "trim (String_or_empty (field payload join_peerId)) = p" and "p \<noteq> []"
    and "data sock = \<lparr>data_rid = Some r1, data_uid = Some u1\<rparr>"
    and "video_join payload has_ack rs sock = (rs', sock', fx)"
  shows "data sock' = \<lparr>data_rid = Some r2, data_uid = Some u2\<rparr>
       \<and> socket_rooms sock' = insert r2 (socket_rooms sock)
       \<and> (\<exists>v. emitted fx = [(r2, User_joined v)])
       \<and> (r1 \<noteq> r2 \<longrightarrow> Map_get rs' r1 = Map_get rs r1)
       \<and> (r1 = r2 \<and> u1 \<noteq> u2 \<longrightarrow>
            (\<forall>m. Map_get rs r1 = Some m \<longrightarrow>
               (\<exists>m'. Map_get rs' r1 = Some m' \<and> Map_get m' u1 = Map_get m u1)))"
  using assms(8)
  unfolding video_join_valid[OF assms(1-6) refl refl]
  by (auto simp: Map_get_set)

theorem second_join_keeps_first_room_witness:
  "data \<lparr>data = \<lparr>data_rid = Some ''X1'', data_uid = Some ''u1''\<rparr>, socket_rooms = {''X1''}\<rparr>
     = \<lparr>data_rid = Some ''X1'', data_uid = Some ''u1''\<rparr>
   \<and> Map_get (sockets (run init two_peers)) ''A''
     = Some \<lparr>data = \<lparr>data_rid = Some ''X1'', data_uid = Some ''u1''\<rparr>, socket_rooms = {''X1''}\<rparr>
   \<and> video_join (join_of ''y2'' ''u9'' None ''p9'') False (rooms (run init two_peers))
        \<lparr>data = \<lparr>data_rid = Some ''X1'', data_uid = Some ''u1''\<rparr>, socket_rooms = {''X1''}\<rparr>
     = ([(''X1'', [(''u1'', \<lparr>uid = ''u1'', name = ''Guest'', peerId = ''p1''\<rparr>),
                   (''u2'', \<lparr>uid = ''u2'', name = ''Bob'', peerId = ''p2''\<rparr>)]),
         (''Y2'', [(''u9'', \<lparr>uid = ''u9'', name = ''Guest'', peerId = ''p9''\<rparr>)])],
        \<lparr>data = \<lparr>data_rid = Some ''Y2'', data_uid = Some ''u9''\<rparr>,
         socket_rooms = {''Y2'', ''X1''}\<rparr>,
        \<lparr>acked = None,
         emitted = [(''Y2'', User_joined \<lparr>uid = ''u9'', name = ''Guest'', peerId = ''p9''\<rparr>)]\<rparr>)
   \<and> Map_get [(''X1'', [(''u1'', \<lparr>uid = ''u1'', name = ''Guest'', peerId = ''p1''\<rparr>),
                        (''u2'', \<lparr>uid = ''u2'', name = ''Bob'', peerId = ''p2''\<rparr>)]),
               (''Y2'', [(''u9'', \<lparr>uid = ''u9'', name = ''Guest'', peerId = ''p9''\<rparr>)])] ''X1''
     = Map_get (rooms (run init two_peers)) ''X1''"
  using second_join_keeps_first_room
    [of "join_of ''y2'' ''u9'' None ''p9''" "''Y2''" "''u9''" "''p9''"
        "\<lparr>data = \<lparr>data_rid = Some ''X1'', data_uid = Some ''u1''\<rparr>, socket_rooms = {''X1''}\<rparr>"
        "''X1''" "''u1''" False "rooms (run init two_peers)"
        "[(''X1'', [(''u1'', \<lparr>uid = ''u1'', name = ''Guest'', peerId = ''p1''\<rparr>),
                   (''u2'', \<lparr>uid = ''u2'', name = ''Bob'', peerId = ''p2''\<rparr>)]),
          (''Y2'', [(''u9'', \<lparr>uid = ''u9'', name = ''Guest'', peerId = ''p9''\<rparr>)])]"
        "\<lparr>data = \<lparr>data_rid = Some ''Y2'', data_uid = Some ''u9''\<rparr>,
          socket_rooms = {''Y2'', ''X1''}\<rparr>"
        "\<lparr>acked = None,
          emitted = [(''Y2'', User_joined \<lparr>uid = ''u9'', name = ''Guest'', peerId = ''p9''\<rparr>)]\<rparr>"]
  unfolding run_two_peers by (simp add: run_defs eval_defs)

section \<open>Explicit leave\<close>

text \<open>
  Claim C5, as it is stated, says the leave handler detaches the connection from the
  room group.  It does not when the registry has no such room: after socket \<open>B\<close> sent
  the leave of \<open>u1\<close>, room \<open>"X1"\<close> is gone from the registry while socket \<open>A\<close> is
  still in the room group \<open>"X1"\<close>; the leave of \<open>A\<close> itself then returns at
  \<open>if (!map) return\<close>, emits nothing, and \<open>A\<close> stays in the group.
\<close>

theorem video_leave_absent_room_counterexample:
  "normRoomId (field (leave_of ''X1'' ''u1'') leave_roomId) = ''X1''
   \<and> trim (String_or_empty (field (leave_of ''X1'' ''u1'') leave_uid)) = ''u1''
   \<and> Map_get (sockets (run init foreign_leave)) ''A''
     = Some \<lparr>data = \<lparr>data_rid = Some ''X1'', data_uid = Some ''u1''\<rparr>,
             socket_rooms = {''X1''}\<rparr>
   \<and> handle (run init foreign_leave) (Video_leave ''A'' (leave_of ''X1'' ''u1''))
     = (run init foreign_leave, \<lparr>acked = None, emitted = []\<rparr>)
   \<and> ''X1'' \<in> socket_rooms (fst (snd (video_leave (leave_of ''X1'' ''u1'')
        (rooms (run init foreign_leave))
        \<lparr>data = \<lparr>data_rid = Some ''X1'', data_uid = Some ''u1''\<rparr>,
          socket_rooms = {''X1''}\<rparr>)))"
  unfolding run_foreign_leave by (simp add: run_defs eval_defs)

text \<open>
  Claim C5, amended.  For a leave with non-empty normalised room id and non-empty
  trimmed uid, in every reachable state: when the room id is not a key of the registry
  the handler changes nothing, emits nothing and does not detach the socket; when it is
  a key, the handler deletes the uid from the room (and the room from the registry if
  that leaves it empty), emits \<open>user-left { uid }\<close> to the room and detaches the socket
  from the room group, whether or not the uid was a member; for a uid that is not a
  member the registry is unchanged.
\<close>

theorem video_leave_effects:
  assumes "s = run init es"
    and "normRoomId (field payload leave_roomId) = r" and "r \<noteq> []"
    and "trim (String_or_empty (field payload leave_uid)) = u" and "u \<noteq> []"
  shows "(Map_get (rooms s) r = None \<longrightarrow>
            video_leave payload (rooms s) sock = (rooms s, sock, \<lparr>acked = None, emitted = []\<rparr>))
       \<and> (\<forall>m. Map_get (rooms s) r = Some m \<longrightarrow>
            video_leave payload (rooms s) sock =
              (if Map_delete m u = [] then Map_delete (rooms s) r
               else Map_set (rooms s) r (Map_delete m u),
               sock\<lparr>socket_rooms := socket_rooms sock - {r}\<rparr>,
               \<lparr>acked = None, emitted = [(r, User_left u)]\<rparr>)
            \<and> (u \<notin> set (Map_keys m) \<longrightarrow> fst (video_leave payload (rooms s) sock) = rooms s))"
proof -
  have ok: "registry_ok (rooms s)"
    unfolding assms(1) by (rule reachable_registry_ok)
  have absent: "video_leave payload (rooms s) sock = (rooms s, sock, \<lparr>acked = None, emitted = []\<rparr>)"
    if "Map_get (rooms s) r = None"
    using that assms(2-5) by (simp add: video_leave_def no_effects_def)
  have present: "video_leave payload (rooms s) sock =
              (if Map_delete m u = [] then Map_delete (rooms s) r
               else Map_set (rooms s) r (Map_delete m u),
               sock\<lparr>socket_rooms := socket_rooms sock - {r}\<rparr>,
               \<lparr>acked = None, emitted = [(r, User_left u)]\<rparr>)"
    if "Map_get (rooms s) r = Some m" for m
    using that assms(2-5) by (simp add: video_leave_def Let_def Map_size_def)
  have stranger: "fst (video_leave payload (rooms s) sock) = rooms s"
    if get: "Map_get (rooms s) r = Some m" and non: "u \<notin> set (Map_keys m)" for m
  proof -
    from non have same: "Map_delete m u = m"
      by (simp add: Map_delete_absent Map_get_None_iff)
    from registry_okD(3)[OF ok get] have "m \<noteq> []" by (simp add: room_ok_def)
    with same get show ?thesis
      by (simp add: present[OF get] Map_set_same)
  qed
  from absent present stranger show ?thesis by blast
qed

theorem video_leave_effects_witness:
  "normRoomId (field (leave_of ''x1'' ''u1'') leave_roomId) = ''X1''
   \<and> trim (String_or_empty (field (leave_of ''x1'' ''u1'') leave_uid)) = ''u1''
   \<and> Map_get (rooms (run init two_peers)) ''X1''
     = Some [(''u1'', \<lparr>uid = ''u1'', name = ''Guest'', peerId = ''p1''\<rparr>),
             (''u2'', \<lparr>uid = ''u2'', name = ''Bob'', peerId = ''p2''\<rparr>)]
   \<and> video_leave (leave_of ''x1'' ''u1'') (rooms (run init two_peers))
        \<lparr>data = \<lparr>data_rid = Some ''X1'', data_uid = Some ''u1''\<rparr>, socket_rooms = {''X1''}\<rparr>
     = ([(''X1'', [(''u2'', \<lparr>uid = ''u2'', name = ''Bob'', peerId = ''p2''\<rparr>)])],
        \<lparr>data = \<lparr>data_rid = Some ''X1'', data_uid = Some ''u1''\<rparr>, socket_rooms = {}\<rparr>,
        \<lparr>acked = None, emitted = [(''X1'', User_left ''u1'')]\<rparr>)"
  using video_leave_effects
    [of "run init two_peers" two_peers "leave_of ''x1'' ''u1''" "''X1''" "''u1''"
        "\<lparr>data = \<lparr>data_rid = Some ''X1'', data_uid = Some ''u1''\<rparr>, socket_rooms = {''X1''}\<rparr>"]
  unfolding run_two_peers by (simp add: run_defs eval_defs)

text \<open>
  Claim C6, as it is stated, says the leave handler clears the session, so that a later
  disconnect does nothing.  The handler never writes \<open>socket.data\<close>: after socket \<open>A\<close>
  left room \<open>"X1"\<close>, where \<open>u2\<close> remains, its data still names \<open>("X1", "u1")\<close>, and its
  disconnect emits \<open>user-left { uid: "u1" }\<close> a second time.
\<close>

theorem leave_then_disconnect_counterexample:
  "normRoomId (field (leave_of ''X1'' ''u1'') leave_roomId) = ''X1''
   \<and> trim (String_or_empty (field (leave_of ''X1'' ''u1'') leave_uid)) = ''u1''
   \<and> Map_get (sockets (run init two_peers)) ''A''
     = Some \<lparr>data = \<lparr>data_rid = Some ''X1'', data_uid = Some ''u1''\<rparr>,
             socket_rooms = {''X1''}\<rparr>
   \<and> Map_get (sockets (run init (two_peers @ [Video_leave ''A'' (leave_of ''X1'' ''u1'')]))) ''A''
     = Some \<lparr>data = \<lparr>data_rid = Some ''X1'', data_uid = Some ''u1''\<rparr>, socket_rooms = {}\<rparr>
   \<and> emitted (snd (handle (run init (two_peers @ [Video_leave ''A'' (leave_of ''X1'' ''u1'')]))
        (Disconnect ''A'')))
     = [(''X1'', User_left ''u1'')]"
  unfolding run_two_peers_leave unfolding run_two_peers by (simp add: run_defs eval_defs)

text \<open>
  Claim C6, amended.  The leave handler leaves \<open>socket.data\<close> as it is.  A later
  disconnect of a socket whose data names \<open>(r, u)\<close> therefore does nothing only when
  \<open>r\<close> is no longer a key of the registry; when \<open>r\<close> is still a key it deletes \<open>u\<close>
  from that room (and the room if that leaves it empty) and emits
  \<open>user-left { uid: u }\<close> again.
\<close>

theorem video_leave_keeps_session:
  assumes "video_leave payload rs sock = (rs', sock', fx)"
  shows "data sock' = data sock
       \<and> (data sock = \<lparr>data_rid = Some r, data_uid = Some u\<rparr> \<and> r \<noteq> [] \<and> u \<noteq> [] \<longrightarrow>
            (Map_get rs' r = None \<longrightarrow>
               disconnect rs' sock' = (rs', \<lparr>acked = None, emitted = []\<rparr>))
          \<and> (\<forall>m. Map_get rs' r = Some m \<longrightarrow>
               disconnect rs' sock' =
                 (if Map_delete m u = [] then Map_delete rs' r
                  else Map_set rs' r (Map_delete m u),
                  \<lparr>acked = None, emitted = [(r, User_left u)]\<rparr>)))"
proof -
  have keep: "data sock' = data sock"
    using assms by (auto simp: video_leave_def Let_def split: if_splits option.splits)
  have gone: "disconnect rs' sock' = (rs', \<lparr>acked = None, emitted = []\<rparr>)"
    if "data sock = \<lparr>data_rid = Some r, data_uid = Some u\<rparr>" "r \<noteq> []" "u \<noteq> []"
      "Map_get rs' r = None"
  proof -
    from keep that(1) have "data sock' = \<lparr>data_rid = Some r, data_uid = Some u\<rparr>" by simp
    with that(2-4) show ?thesis by (simp add: disconnect_def no_effects_def)
  qed
  have again: "disconnect rs' sock' =
      (if Map_delete m u = [] then Map_delete rs' r else Map_set rs' r (Map_delete m u),
       \<lparr>acked = None, emitted = [(r, User_left u)]\<rparr>)"
    if "data sock = \<lparr>data_rid = Some r, data_uid = Some u\<rparr>" "r \<noteq> []" "u \<noteq> []"
      "Map_get rs' r = Some m" for m
  proof -
    from keep that(1) have "data sock' = \<lparr>data_rid = Some r, data_uid = Some u\<rparr>" by simp
    with that(2-4) show ?thesis by (simp add: disconnect_def Let_def Map_size_def)
  qed
  from keep gone again show ?thesis by blast
qed

theorem video_leave_keeps_session_witness:
  "video_leave (leave_of ''X1'' ''u1'') (rooms (run init two_peers))
        \<lparr>data = \<lparr>data_rid = Some ''X1'', data_uid = Some ''u1''\<rparr>, socket_rooms = {''X1''}\<rparr>
     = ([(''X1'', [(''u2'', \<lparr>uid = ''u2'', name = ''Bob'', peerId = ''p2''\<rparr>)])],
        \<lparr>data = \<lparr>data_rid = Some ''X1'', data_uid = Some ''u1''\<rparr>, socket_rooms = {}\<rparr>,
        \<lparr>acked = None, emitted = [(''X1'', User_left ''u1'')]\<rparr>)
   \<and> disconnect [(''X1'', [(''u2'', \<lparr>uid = ''u2'', name = ''Bob'', peerId = ''p2''\<rparr>)])]
        \<lparr>data = \<lparr>data_rid = Some ''X1'', data_uid = Some ''u1''\<rparr>, socket_rooms = {}\<rparr>
     = ([(''X1'', [(''u2'', \<lparr>uid = ''u2'', name = ''Bob'', peerId = ''p2''\<rparr>)])],
        \<lparr>acked = None, emitted = [(''X1'', User_left ''u1'')]\<rparr>)"
  using video_leave_keeps_session
    [of "leave_of ''X1'' ''u1''" "rooms (run init two_peers)"
        "\<lparr>data = \<lparr>data_rid = Some ''X1'', data_uid = Some ''u1''\<rparr>, socket_rooms = {''X1''}\<rparr>"
        "[(''X1'', [(''u2'', \<lparr>uid = ''u2'', name = ''Bob'', peerId = ''p2''\<rparr>)])]"
        "\<lparr>data = \<lparr>data_rid = Some ''X1'', data_uid = Some ''u1''\<rparr>, socket_rooms = {}\<rparr>"
        "\<lparr>acked = None, emitted = [(''X1'', User_left ''u1'')]\<rparr>" "''X1''" "''u1''"]
  unfolding run_two_peers by (simp add: run_defs eval_defs)

end
